theory Spec2Isabelle
  imports Main
begin

section \<open>Data model (api/models.py, api/routes.py)\<close>

text \<open>
  Every way a request handler of \<^verbatim>\<open>routes.py\<close> can end without a response body:
  the six \<^verbatim>\<open>HTTPException\<close>s it raises itself, Python's \<^verbatim>\<open>IndexError\<close> for a
  subscript outside a string, and the validation error of the response schema
  \<^verbatim>\<open>GameState\<close>, whose \<^verbatim>\<open>winner\<close> field is
  \<^verbatim>\<open>Optional[Literal["X", "O", "draw", None]]\<close>.
  \<^verbatim>\<open>NotYourTurn\<close> carries the player type that is interpolated in its detail text.
\<close>

datatype error =
    GameNotFound
  | GameAlreadyFinished
  | NotAParticipant
  | NotYourTurn string
  | MoveIndexOutOfRange
  | SquareAlreadyTaken
  | IndexError
  | ResponseValidationError

text \<open>The status code each error reaches the client with.\<close>

fun status_code :: "error \<Rightarrow> nat" where
  "status_code GameNotFound = 404"
| "status_code GameAlreadyFinished = 400"
| "status_code NotAParticipant = 403"
| "status_code (NotYourTurn p) = 400"
| "status_code MoveIndexOutOfRange = 400"
| "status_code SquareAlreadyTaken = 400"
| "status_code IndexError = 500"
| "status_code ResponseValidationError = 500"

text \<open>A row of table \<^verbatim>\<open>moves\<close>; rows are kept in the order of their primary key.\<close>

record Move =
  m_game_id :: int
  m_player_id :: int
  m_move_index :: int

text \<open>
  A row of table \<^verbatim>\<open>games\<close> together with its relationship \<^verbatim>\<open>moves\<close>
  (ordered by \<^verbatim>\<open>Move.id\<close>). Column \<^verbatim>\<open>winner\<close> is a nullable string.
  The timestamps and the user rows behind the two player ids are left out.
\<close>

record Game =
  g_id :: int
  player_x_id :: int
  player_o_id :: int
  state :: string
  winner :: "string option"
  moves :: "Move list"

text \<open>The request body of \<^verbatim>\<open>POST /games/{game_id}/move\<close>.\<close>

record MoveRequest =
  player_id :: int
  move_index :: int

text \<open>The constraint \<^verbatim>\<open>Field(..., ge=0, le=8)\<close> of \<^verbatim>\<open>MoveRequest.move_index\<close>.\<close>

definition MoveRequest_schema :: "MoveRequest \<Rightarrow> bool" where
  "MoveRequest_schema request \<longleftrightarrow> 0 \<le> move_index request \<and> move_index request \<le> 8"

text \<open>The response body \<^verbatim>\<open>GameState\<close>, without users' names and timestamps.\<close>

record GameState =
  gs_id :: int
  gs_player_x :: int
  gs_player_o :: int
  gs_state :: string
  gs_winner :: "string option"
  gs_moves :: "int list"

text \<open>The games table, keyed by primary key.\<close>

type_synonym db = "int \<rightharpoonup> Game"

section \<open>Python primitives\<close>

text \<open>
  \<^verbatim>\<open>s[i]\<close> on a string: a negative index counts from the end, and an index
  outside \<^verbatim>\<open>[-len(s), len(s))\<close> raises \<^verbatim>\<open>IndexError\<close>.
\<close>

definition str_at :: "string \<Rightarrow> int \<Rightarrow> error + char" where
  "str_at s i =
     (if 0 \<le> i \<and> i < int (length s) then Inr (s ! nat i)
      else if - int (length s) \<le> i \<and> i < 0 then Inr (s ! nat (int (length s) + i))
      else Inl IndexError)"

text \<open>Truth value of an \<^verbatim>\<open>Optional[str]\<close>: \<^verbatim>\<open>None\<close> and the empty string are false.\<close>

fun truthy :: "string option \<Rightarrow> bool" where
  "truthy None = False"
| "truthy (Some s) = (s \<noteq> [])"

section \<open>Game logic (api/routes.py)\<close>

text \<open>
  \<^verbatim>\<open>moves_count = 9 - state.count("-")\<close>, then
  \<^verbatim>\<open>"X" if moves_count % 2 == 0 else "O"\<close>. Python's \<^verbatim>\<open>%\<close> with a positive
  divisor is \<^term>\<open>(mod)\<close> on \<^typ>\<open>int\<close>, also for a negative count.
\<close>

definition get_current_turn :: "string \<Rightarrow> string" where
  "get_current_turn st =
     (let moves_count = 9 - int (count_list st (CHR ''-''))
      in if moves_count mod 2 = 0 then ''X'' else ''O'')"

definition lines :: "(int \<times> int \<times> int) list" where
  "lines = [(0,1,2), (3,4,5), (6,7,8),
            (0,3,6), (1,4,7), (2,5,8),
            (0,4,8), (2,4,6)]"

text \<open>
  The test of one line,
  \<^verbatim>\<open>state[a] == state[b] == state[c] and state[a] in "XO"\<close>:
  the chained comparison reads \<^verbatim>\<open>state[c]\<close> only when the first two cells are
  equal. The result is the winner found on this line, if any.
\<close>

definition check_line :: "string \<Rightarrow> int \<times> int \<times> int \<Rightarrow> error + string option" where
  "check_line st line =
     (case line of (a, b, c) \<Rightarrow>
        (case str_at st a of Inl e \<Rightarrow> Inl e | Inr x \<Rightarrow>
        (case str_at st b of Inl e \<Rightarrow> Inl e | Inr y \<Rightarrow>
           if x \<noteq> y then Inr None
           else (case str_at st c of Inl e \<Rightarrow> Inl e | Inr z \<Rightarrow>
             if y = z \<and> x \<in> set ''XO'' then Inr (Some [x]) else Inr None))))"

text \<open>The \<^verbatim>\<open>for\<close> loop over the lines, followed by the draw test.\<close>

fun check_lines :: "string \<Rightarrow> (int \<times> int \<times> int) list \<Rightarrow> error + string option" where
  "check_lines st [] =
     (if CHR ''-'' \<notin> set st then Inr (Some ''draw'') else Inr None)"
| "check_lines st (line # rest) =
     (case check_line st line of
        Inl e \<Rightarrow> Inl e
      | Inr (Some w) \<Rightarrow> Inr (Some w)
      | Inr None \<Rightarrow> check_lines st rest)"

definition check_winner :: "string \<Rightarrow> error + string option" where
  "check_winner st = check_lines st lines"

section \<open>Endpoints (api/routes.py)\<close>

text \<open>
  \<^verbatim>\<open>_to_gamestate\<close>: building the response validates \<^verbatim>\<open>winner\<close> against the
  literals of the schema.
\<close>

definition to_gamestate :: "Game \<Rightarrow> error + GameState" where
  "to_gamestate game =
     (if winner game \<in> {None, Some ''X'', Some ''O'', Some ''draw''}
      then Inr \<lparr> gs_id = g_id game,
                 gs_player_x = player_x_id game,
                 gs_player_o = player_o_id game,
                 gs_state = state game,
                 gs_winner = winner game,
                 gs_moves = map m_move_index (moves game) \<rparr>
      else Inl ResponseValidationError)"

text \<open>The game a successful \<^verbatim>\<open>create_game\<close> stores under a new primary key.\<close>

definition new_game :: "int \<Rightarrow> int \<Rightarrow> int \<Rightarrow> Game" where
  "new_game gid px po =
     \<lparr> g_id = gid, player_x_id = px, player_o_id = po,
       state = ''---------'', winner = None, moves = [] \<rparr>"

definition get_game_state :: "int \<Rightarrow> db \<Rightarrow> error + GameState" where
  "get_game_state game_id db =
     (case db game_id of
        None \<Rightarrow> Inl GameNotFound
      | Some game \<Rightarrow> to_gamestate game)"

text \<open>
  \<^verbatim>\<open>"X" if request.player_id == game.player_x_id else "O" if
  request.player_id == game.player_o_id else None\<close>
\<close>

definition player_type_of :: "Game \<Rightarrow> MoveRequest \<Rightarrow> string option" where
  "player_type_of game request =
     (if player_id request = player_x_id game then Some ''X''
      else if player_id request = player_o_id game then Some ''O''
      else None)"

text \<open>
  \<^verbatim>\<open>make_move\<close>. The result pairs the response with the database after the
  request. Every \<^verbatim>\<open>raise\<close> before \<^verbatim>\<open>db.commit()\<close> leaves the database as it
  was: the session is closed without a commit. An \<^verbatim>\<open>IndexError\<close> inside
  \<^verbatim>\<open>check_winner\<close> is raised after the in-memory row was changed but before the
  commit, so the stored row is unchanged too. A failure of the response schema
  comes after the commit.
\<close>

definition make_move :: "int \<Rightarrow> MoveRequest \<Rightarrow> db \<Rightarrow> (error + GameState) \<times> db" where
  "make_move game_id request db =
     (case db game_id of
        None \<Rightarrow> (Inl GameNotFound, db)
      | Some game \<Rightarrow>
          if truthy (winner game) then (Inl GameAlreadyFinished, db)
          else (case player_type_of game request of
            None \<Rightarrow> (Inl NotAParticipant, db)
          | Some player_type \<Rightarrow>
              if player_type \<noteq> get_current_turn (state game)
              then (Inl (NotYourTurn player_type), db)
              else if \<not> (0 \<le> move_index request \<and> move_index request \<le> 8)
              then (Inl MoveIndexOutOfRange, db)
              else (case str_at (state game) (move_index request) of
                Inl e \<Rightarrow> (Inl e, db)
              | Inr cell \<Rightarrow>
                  if cell \<noteq> CHR ''-'' then (Inl SquareAlreadyTaken, db)
                  else
                    let new_state = take (nat (move_index request)) (state game)
                                    @ player_type
                                    @ drop (nat (move_index request + 1)) (state game);
                        move = \<lparr> m_game_id = g_id game,
                                 m_player_id = player_id request,
                                 m_move_index = move_index request \<rparr>
                    in (case check_winner new_state of
                          Inl e \<Rightarrow> (Inl e, db)
                        | Inr w \<Rightarrow>
                            let game' = game \<lparr> state := new_state,
                                               winner := (if truthy w then w else winner game),
                                               moves := moves game @ [move] \<rparr>
                            in (to_gamestate game', db(game_id \<mapsto> game'))))))"

text \<open>
  A sequence of \<^verbatim>\<open>make_move\<close> requests, each to some game id: the database
  is threaded through and the responses are collected in order.
\<close>

fun make_moves :: "(int \<times> MoveRequest) list \<Rightarrow> db \<Rightarrow> (error + GameState) list \<times> db" where
  "make_moves [] db = ([], db)"
| "make_moves ((game_id, request) # rest) db =
     (case make_move game_id request db of (response, db') \<Rightarrow>
        (case make_moves rest db' of (responses, db'') \<Rightarrow> (response # responses, db'')))"

section \<open>The win detector as the specification words it\<close>

text \<open>
  The outcome of a match and the value \<^verbatim>\<open>check_winner\<close> returns for it:
  \<^verbatim>\<open>None\<close> while in progress, the winner's mark, or \<^verbatim>\<open>"draw"\<close>.
\<close>

datatype Outcome = InProgress | Won char | Draw

fun Outcome_repr :: "Outcome \<Rightarrow> string option" where
  "Outcome_repr InProgress = None"
| "Outcome_repr (Won m) = Some [m]"
| "Outcome_repr Draw = Some ''draw''"

text \<open>The eight triples in detection order: rows, then columns, then diagonals.\<close>

definition triples_in_order :: "(int \<times> int \<times> int) list" where
  "triples_in_order =
     [(0,1,2), (3,4,5), (6,7,8), (0,3,6), (1,4,7), (2,5,8), (0,4,8), (2,4,6)]"

text \<open>A triple holds three identical non-empty marks.\<close>

definition three_marks :: "string \<Rightarrow> int \<times> int \<times> int \<Rightarrow> bool" where
  "three_marks board t =
     (case t of (i, j, k) \<Rightarrow>
        board ! nat i = board ! nat j \<and> board ! nat j = board ! nat k \<and>
        (board ! nat i = CHR ''X'' \<or> board ! nat i = CHR ''O''))"

text \<open>
  The algorithm of the specification on a nine-cell board: the mark of the first
  triple in detection order that holds three identical marks; else a draw when no
  cell is empty; else in progress.
\<close>

definition WinDetector_evaluate :: "string \<Rightarrow> Outcome" where
  "WinDetector_evaluate board =
     (case find (three_marks board) triples_in_order of
        Some (i, j, k) \<Rightarrow> Won (board ! nat i)
      | None \<Rightarrow> if CHR ''-'' \<notin> set board then Draw else InProgress)"

text \<open>All three cells of a triple hold mark \<open>m\<close>.\<close>

definition filled :: "string \<Rightarrow> int \<times> int \<times> int \<Rightarrow> char \<Rightarrow> bool" where
  "filled board t m =
     (case t of (i, j, k) \<Rightarrow> board ! nat i = m \<and> board ! nat j = m \<and> board ! nat k = m)"

definition other_mark :: "char \<Rightarrow> char" where
  "other_mark m = (if m = CHR ''X'' then CHR ''O'' else CHR ''X'')"

text \<open>The three positions of a triple are cells of the string.\<close>

definition in_board :: "string \<Rightarrow> int \<times> int \<times> int \<Rightarrow> bool" where
  "in_board st t = (case t of (a, b, c) \<Rightarrow>
      0 \<le> a \<and> a < int (length st) \<and> 0 \<le> b \<and> b < int (length st) \<and>
      0 \<le> c \<and> c < int (length st))"

section \<open>The legality checks, one by one\<close>




text \<open>The board has nine cells and the move log one entry per occupied cell.\<close>

definition occupancy_inv :: "Game \<Rightarrow> bool" where
  "occupancy_inv game \<longleftrightarrow>
     length (state game) = 9 \<and>
     length (moves game) + count_list (state game) (CHR ''-'') = 9"

section \<open>Which errors the helpers can raise\<close>

lemma str_at_error: "str_at s i = Inl e \<Longrightarrow> e = IndexError"
  by (auto simp: str_at_def split: if_splits)

lemma check_line_error: "check_line st line = Inl e \<Longrightarrow> e = IndexError"
  by (auto simp: check_line_def split: prod.splits sum.splits if_splits dest: str_at_error)

lemma check_lines_error: "check_lines st ls = Inl e \<Longrightarrow> e = IndexError"
  by (induction ls) (auto split: sum.splits option.splits if_splits dest: check_line_error)

lemma check_winner_error: "check_winner st = Inl e \<Longrightarrow> e = IndexError"
  unfolding check_winner_def by (rule check_lines_error)

lemma to_gamestate_error: "to_gamestate game = Inl e \<Longrightarrow> e = ResponseValidationError"
  by (auto simp: to_gamestate_def split: if_splits)

section \<open>Rejected moves\<close>

text \<open>
  C2. A move request that \<^const>\<open>make_move\<close> answers with an error raised by the
  handler (game not found, game already finished, not a participant, not the
  player's turn, index out of range, square taken, or an \<^verbatim>\<open>IndexError\<close>)
  leaves the database exactly as it was, hence also the game's board string, move
  log and winner. Only a failure of the response schema comes after the commit.
\<close>

theorem rejected_move_changes_nothing:
  "fst (make_move game_id request db) = Inl e \<Longrightarrow> e \<noteq> ResponseValidationError \<Longrightarrow>
   snd (make_move game_id request db) = db"
  by (auto simp: make_move_def Let_def
      split: option.splits sum.splits if_splits
      dest: to_gamestate_error)

theorem rejected_move_changes_nothing_witness:
  "fst (make_move 1 \<lparr>player_id = 20, move_index = 0\<rparr> [1 \<mapsto> new_game 1 10 20])
     = Inl (NotYourTurn ''O'') \<and>
   snd (make_move 1 \<lparr>player_id = 20, move_index = 0\<rparr> [1 \<mapsto> new_game 1 10 20])
     = [1 \<mapsto> new_game 1 10 20]"
proof -
  have r: "fst (make_move 1 \<lparr>player_id = 20, move_index = 0\<rparr> [1 \<mapsto> new_game 1 10 20])
             = Inl (NotYourTurn ''O'')"
    by (simp add: make_move_def new_game_def player_type_of_def get_current_turn_def)
  have "NotYourTurn ''O'' \<noteq> ResponseValidationError" by simp
  from rejected_move_changes_nothing [OF r this] r show ?thesis by simp
qed

text \<open>
  C10. For a request that satisfies the schema of \<^verbatim>\<open>MoveRequest\<close>
  (\<open>0 \<le> move_index \<le> 8\<close>), \<^const>\<open>make_move\<close> never raises
  "move_index must be [0,8]".
\<close>

theorem schema_excludes_range_error:
  "MoveRequest_schema request \<Longrightarrow> fst (make_move game_id request db) \<noteq> Inl MoveIndexOutOfRange"
  by (auto simp: make_move_def MoveRequest_schema_def Let_def
      split: option.splits sum.splits if_splits
      dest: str_at_error check_winner_error to_gamestate_error)

theorem schema_excludes_range_error_witness:
  "MoveRequest_schema \<lparr>player_id = 10, move_index = 8\<rparr> \<and>
   fst (make_move 1 \<lparr>player_id = 10, move_index = 8\<rparr> [1 \<mapsto> new_game 1 10 20])
     \<noteq> Inl MoveIndexOutOfRange"
proof -
  have s: "MoveRequest_schema \<lparr>player_id = 10, move_index = 8\<rparr>"
    by (simp add: MoveRequest_schema_def)
  from schema_excludes_range_error [OF s] s show ?thesis by simp
qed

section \<open>Whose turn it is\<close>

text \<open>
  C7. \<^const>\<open>get_current_turn\<close> is a total function of the board string: it
  returns "X" exactly when the number of moves played, 9 minus the number of
  \<^verbatim>\<open>-\<close> cells, is even, and "O" exactly when that number is odd.
\<close>

theorem get_current_turn_parity:
  "(get_current_turn st = ''X'' \<longleftrightarrow> even (9 - int (count_list st (CHR ''-'')))) \<and>
   (get_current_turn st = ''O'' \<longleftrightarrow> odd (9 - int (count_list st (CHR ''-''))))"
  by (simp add: get_current_turn_def Let_def even_iff_mod_2_eq_zero)

theorem get_current_turn_parity_witness:
  "get_current_turn ''X--------'' = ''O'' \<and> get_current_turn ''XO-------'' = ''X''"
  using get_current_turn_parity [of "''X--------''"] get_current_turn_parity [of "''XO-------''"]
  by simp

section \<open>Win detection\<close>

lemma check_line_in_board:
  "in_board st t \<Longrightarrow>
   check_line st t = Inr (if three_marks st t then Some [st ! nat (fst t)] else None)"
  by (cases t) (auto simp: in_board_def check_line_def str_at_def three_marks_def)

lemma check_lines_find:
  "\<forall>t \<in> set ls. in_board st t \<Longrightarrow>
   check_lines st ls =
     Inr (case find (three_marks st) ls of
            Some t \<Rightarrow> Some [st ! nat (fst t)]
          | None \<Rightarrow> if CHR ''-'' \<notin> set st then Some ''draw'' else None)"
  by (induction ls) (simp_all add: check_line_in_board)

lemma lines_in_board: "9 \<le> length st \<Longrightarrow> \<forall>t \<in> set lines. in_board st t"
  by (auto simp: lines_def in_board_def)

lemma check_winner_find:
  "9 \<le> length st \<Longrightarrow>
   check_winner st =
     Inr (case find (three_marks st) lines of
            Some t \<Rightarrow> Some [st ! nat (fst t)]
          | None \<Rightarrow> if CHR ''-'' \<notin> set st then Some ''draw'' else None)"
  unfolding check_winner_def by (rule check_lines_find [OF lines_in_board])

text \<open>
  C5. On every nine-cell board \<^const>\<open>check_winner\<close> returns what the algorithm
  of the specification returns: it looks at the eight triples in the order rows
  (0,1,2), (3,4,5), (6,7,8), columns (0,3,6), (1,4,7), (2,5,8), diagonals (0,4,8),
  (2,4,6); the first triple holding three identical marks X or O decides the
  winner; otherwise a board without an empty cell is a draw; otherwise the result
  is \<^verbatim>\<open>None\<close>.
\<close>

theorem check_winner_refines_WinDetector:
  "length st = 9 \<Longrightarrow> check_winner st = Inr (Outcome_repr (WinDetector_evaluate st))"
  by (simp add: check_winner_find WinDetector_evaluate_def lines_def triples_in_order_def
      split: option.splits prod.splits)

theorem check_winner_refines_WinDetector_witness:
  "length ''XOXXOOOXX'' = 9 \<and> check_winner ''XOXXOOOXX'' = Inr (Some ''draw'') \<and>
   length ''O-XOX-X--'' = 9 \<and> check_winner ''O-XOX-X--'' = Inr (Some ''X'') \<and>
   length ''O-XOX----'' = 9 \<and> check_winner ''O-XOX----'' = Inr None"
  using check_winner_refines_WinDetector [of "''XOXXOOOXX''"]
    check_winner_refines_WinDetector [of "''O-XOX-X--''"]
    check_winner_refines_WinDetector [of "''O-XOX----''"]
  by (simp add: WinDetector_evaluate_def triples_in_order_def three_marks_def)

text \<open>
  C6, as the code has it. For each of the eight triples and each mark \<open>m\<close> of X
  and O, a nine-cell board whose triple is filled with \<open>m\<close> is classified as won
  by \<open>m\<close>, provided no triple earlier in the detection order is filled with the
  other mark; the remaining cells are arbitrary.
\<close>

theorem check_winner_filled_triple:
  assumes len: "length st = 9" and i: "i < length lines"
    and m: "m = CHR ''X'' \<or> m = CHR ''O''"
    and f: "filled st (lines ! i) m"
    and e: "\<forall>j<i. \<not> filled st (lines ! j) (other_mark m)"
  shows "check_winner st = Inr (Some [m])"
proof -
  have "three_marks st (lines ! i)"
    using f m by (cases "lines ! i") (auto simp: filled_def three_marks_def)
  with i have "find (three_marks st) lines \<noteq> None"
    unfolding find_None_iff using nth_mem by blast
  then obtain t where t: "find (three_marks st) lines = Some t" by blast
  then obtain j where j: "j < length lines" "three_marks st (lines ! j)" "t = lines ! j"
    and first: "\<forall>k<j. \<not> three_marks st (lines ! k)"
    by (auto simp: find_Some_iff)
  have ji: "j \<le> i"
  proof (rule ccontr)
    assume "\<not> j \<le> i"
    then have "i < j" by simp
    with first \<open>three_marks st (lines ! i)\<close> show False by blast
  qed
  have "st ! nat (fst t) = m"
  proof (cases "j = i")
    case True
    with f j show ?thesis by (cases "lines ! i") (auto simp: filled_def)
  next
    case False
    with ji have "j < i" by simp
    with e have nf: "\<not> filled st t (other_mark m)" using j by simp
    show ?thesis
    proof (rule ccontr)
      assume "st ! nat (fst t) \<noteq> m"
      with j(2) j(3) m have "filled st t (other_mark m)"
        by (cases t) (auto simp: three_marks_def filled_def other_mark_def)
      with nf show False by contradiction
    qed
  qed
  with t len show ?thesis by (simp add: check_winner_find)
qed

theorem check_winner_filled_triple_witness:
  "length ''XO-XO-X--'' = 9 \<and> lines ! 3 = (0, 3, 6) \<and>
   filled ''XO-XO-X--'' (0, 3, 6) (CHR ''X'') \<and>
   check_winner ''XO-XO-X--'' = Inr (Some ''X'')"
proof -
  have e: "\<forall>j<3. \<not> filled ''XO-XO-X--'' (lines ! j) (other_mark (CHR ''X''))"
    by (simp add: All_less_Suc numeral_3_eq_3 lines_def filled_def other_mark_def)
  have f: "filled ''XO-XO-X--'' (lines ! 3) (CHR ''X'')"
    by (simp add: lines_def filled_def)
  have l: "length ''XO-XO-X--'' = 9" and i: "3 < length lines"
    and m: "CHR ''X'' = CHR ''X'' \<or> CHR ''X'' = CHR ''O''"
    by (simp_all add: lines_def)
  from check_winner_filled_triple [OF l i m f e] f show ?thesis
    by (simp add: lines_def)
qed

text \<open>
  The claim without the proviso fails: in \<^verbatim>\<open>OOOXXX---\<close> the second row is
  filled with X, and the first row, examined before it, makes O the winner.
\<close>

theorem filled_triple_not_always_won_counterexample:
  "length ''OOOXXX---'' = 9 \<and> lines ! 1 = (3, 4, 5) \<and>
   filled ''OOOXXX---'' (3, 4, 5) (CHR ''X'') \<and>
   check_winner ''OOOXXX---'' = Inr (Some ''O'') \<and>
   check_winner ''OOOXXX---'' \<noteq> Inr (Some ''X'')"
  by (simp add: lines_def filled_def check_winner_def check_line_def str_at_def)

section \<open>Order of the legality checks\<close>




section \<open>Finished games\<close>

lemma make_move_other_game:
  "game_id' \<noteq> game_id \<Longrightarrow> snd (make_move game_id' request db) game_id = db game_id"
  by (auto simp: make_move_def Let_def split: option.splits sum.splits if_splits)

lemma make_move_finished:
  "db game_id = Some game \<Longrightarrow> truthy (winner game) \<Longrightarrow>
   make_move game_id request db = (Inl GameAlreadyFinished, db)"
  by (simp add: make_move_def)

lemma snd_make_moves_Cons:
  "snd (make_moves ((game_id, request) # rest) db) =
   snd (make_moves rest (snd (make_move game_id request db)))"
  by (cases "make_move game_id request db";
      cases "make_moves rest (snd (make_move game_id request db))") simp

lemma make_moves_finished:
  "db game_id = Some game \<Longrightarrow> truthy (winner game) \<Longrightarrow>
   snd (make_moves requests db) game_id = Some game"
proof (induction requests arbitrary: db)
  case Nil
  then show ?case by simp
next
  case (Cons a requests)
  obtain gid' r where a: "a = (gid', r)" by (cases a)
  have "snd (make_move gid' r db) game_id = Some game"
  proof (cases "gid' = game_id")
    case True
    with Cons.prems show ?thesis by (simp add: make_move_finished)
  next
    case False
    with Cons.prems show ?thesis by (simp add: make_move_other_game)
  qed
  from this Cons.prems(2)
  have "snd (make_moves requests (snd (make_move gid' r db))) game_id = Some game"
    by (rule Cons.IH)
  then show ?case
    by (simp only: a snd_make_moves_Cons)
qed

text \<open>
  C3. Once the winner of a game is "X", "O" or "draw", every further move request
  to it, whatever the player and the index, is rejected with "Game already
  finished" and leaves the database unchanged; after any sequence of further
  requests the stored game, its winner included, is still the same.
\<close>

theorem finished_game_absorbs:
  assumes "db game_id = Some game"
    and "winner game = Some ''X'' \<or> winner game = Some ''O'' \<or> winner game = Some ''draw''"
  shows "make_move game_id request db = (Inl GameAlreadyFinished, db) \<and>
         snd (make_moves requests db) game_id = Some game"
proof -
  from assms(2) have "truthy (winner game)" by auto
  with assms(1) show ?thesis
    by (simp add: make_move_finished make_moves_finished)
qed

theorem finished_game_absorbs_witness:
  "make_move 1 \<lparr>player_id = 20, move_index = 5\<rparr>
     [1 \<mapsto> (new_game 1 10 20)\<lparr>state := ''XXXOO----'', winner := Some ''X''\<rparr>]
   = (Inl GameAlreadyFinished,
      [1 \<mapsto> (new_game 1 10 20)\<lparr>state := ''XXXOO----'', winner := Some ''X''\<rparr>]) \<and>
   snd (make_moves [(1, \<lparr>player_id = 20, move_index = 5\<rparr>),
                    (1, \<lparr>player_id = 10, move_index = 6\<rparr>)]
     [1 \<mapsto> (new_game 1 10 20)\<lparr>state := ''XXXOO----'', winner := Some ''X''\<rparr>]) 1
   = Some ((new_game 1 10 20)\<lparr>state := ''XXXOO----'', winner := Some ''X''\<rparr>)"
  by (rule finished_game_absorbs
    [where db = "[1 \<mapsto> (new_game 1 10 20)\<lparr>state := ''XXXOO----'', winner := Some ''X''\<rparr>]"
       and game_id = 1
       and game = "(new_game 1 10 20)\<lparr>state := ''XXXOO----'', winner := Some ''X''\<rparr>"
       and request = "\<lparr>player_id = 20, move_index = 5\<rparr>"
       and requests = "[(1, \<lparr>player_id = 20, move_index = 5\<rparr>),
                    (1, \<lparr>player_id = 10, move_index = 6\<rparr>)]"])
    (simp_all add: new_game_def)

section \<open>Move log and board occupancy\<close>

lemma count_list_update_dash:
  assumes "i < length st" "st ! i = CHR ''-''" "c \<noteq> CHR ''-''"
  shows "Suc (count_list (take i st @ [c] @ drop (Suc i) st) (CHR ''-'')) = count_list st (CHR ''-'')"
proof -
  have "count_list st (CHR ''-'') = count_list (take i st @ st ! i # drop (Suc i) st) (CHR ''-'')"
    using id_take_nth_drop [OF assms(1)] by simp
  with assms(2,3) show ?thesis by simp
qed

lemma make_move_same_game:
  assumes db: "db game_id = Some game"
  shows "(\<exists>e. make_move game_id request db = (Inl e, db) \<and> e \<noteq> ResponseValidationError) \<or>
    (\<exists>c game'. (c = CHR ''X'' \<or> c = CHR ''O'') \<and>
       [c] = get_current_turn (state game) \<and>
       0 \<le> move_index request \<and> nat (move_index request) < length (state game) \<and>
       state game ! nat (move_index request) = CHR ''-'' \<and>
       state game' = take (nat (move_index request)) (state game) @ [c]
                       @ drop (Suc (nat (move_index request))) (state game) \<and>
       moves game' = moves game @ [\<lparr> m_game_id = g_id game,
                                 m_player_id = player_id request,
                                 m_move_index = move_index request \<rparr>] \<and>
       make_move game_id request db = (to_gamestate game', db(game_id \<mapsto> game')))"
proof (cases "truthy (winner game)")
  case True
  with db show ?thesis by (simp add: make_move_def)
next
  case nf: False
  show ?thesis
  proof (cases "player_type_of game request")
    case None
    with db nf show ?thesis by (simp add: make_move_def)
  next
    case (Some pt)
    then obtain c where c: "c = CHR ''X'' \<or> c = CHR ''O''" and pt: "pt = [c]"
      by (auto simp: player_type_of_def split: if_splits)
    show ?thesis
    proof (cases "pt \<noteq> get_current_turn (state game)")
      case True
      with db nf Some show ?thesis by (simp add: make_move_def)
    next
      case turn: False
      show ?thesis
      proof (cases "0 \<le> move_index request \<and> move_index request \<le> 8")
        case False
        with db nf Some turn show ?thesis by (simp add: make_move_def)
      next
        case ok: True
        show ?thesis
        proof (cases "str_at (state game) (move_index request)")
          case (Inl e)
          then have "e \<noteq> ResponseValidationError" by (auto dest: str_at_error)
          with db nf Some turn ok Inl show ?thesis by (simp add: make_move_def)
        next
          case cell: (Inr cell)
          with ok have i: "nat (move_index request) < length (state game)"
            and cell_eq: "cell = state game ! nat (move_index request)"
            by (auto simp: str_at_def split: if_splits)
          from ok have suc: "nat (move_index request + 1) = Suc (nat (move_index request))"
            by (simp add: nat_add_distrib)
          show ?thesis
          proof (cases "cell = CHR ''-''")
            case False
            with db nf Some turn ok cell show ?thesis by (simp add: make_move_def)
          next
            case dash: True
            show ?thesis
            proof (cases "check_winner (take (nat (move_index request)) (state game) @ pt
                            @ drop (nat (move_index request + 1)) (state game))")
              case (Inl e)
              then have "e \<noteq> ResponseValidationError" by (auto dest: check_winner_error)
              with db nf Some turn ok cell dash Inl show ?thesis
                by (simp add: make_move_def Let_def)
            next
              case (Inr w)
              let ?g = "game \<lparr> state := take (nat (move_index request)) (state game) @ pt
                                   @ drop (nat (move_index request + 1)) (state game),
                               winner := (if truthy w then w else winner game),
                               moves := moves game @ [\<lparr> m_game_id = g_id game,
                                   m_player_id = player_id request,
                                   m_move_index = move_index request \<rparr>] \<rparr>"
              from db nf Some turn ok cell dash Inr
              have "make_move game_id request db = (to_gamestate ?g, db(game_id \<mapsto> ?g))"
                by (simp add: make_move_def Let_def)
              moreover have "state ?g = take (nat (move_index request)) (state game) @ [c]
                         @ drop (Suc (nat (move_index request))) (state game)"
                by (simp add: pt suc)
              moreover have "moves ?g = moves game @ [\<lparr> m_game_id = g_id game,
                                   m_player_id = player_id request,
                                   m_move_index = move_index request \<rparr>]"
                by simp
              moreover from turn pt have "[c] = get_current_turn (state game)" by simp
              ultimately show ?thesis
                using c i ok cell_eq dash by blast
            qed
          qed
        qed
      qed
    qed
  qed
qed

lemma make_move_accepted:
  assumes db: "db game_id = Some game"
    and acc: "fst (make_move game_id request db) = Inr gs"
  shows "\<exists>c game'. snd (make_move game_id request db) game_id = Some game' \<and>
           moves game' = moves game @ [\<lparr> m_game_id = g_id game,
                                 m_player_id = player_id request,
                                 m_move_index = move_index request \<rparr>] \<and>
           (c = CHR ''X'' \<or> c = CHR ''O'') \<and> [c] = get_current_turn (state game) \<and>
           0 \<le> move_index request \<and> nat (move_index request) < length (state game) \<and>
           state game ! nat (move_index request) = CHR ''-'' \<and>
           state game' = (state game)[nat (move_index request) := c] \<and>
           gs_state gs = state game' \<and> gs_moves gs = map m_move_index (moves game')"
proof -
  from acc have "\<not> (\<exists>e. make_move game_id request db = (Inl e, db) \<and>
      e \<noteq> ResponseValidationError)"
    by auto
  with make_move_same_game [of db game_id game request] db
  obtain c game' where c: "c = CHR ''X'' \<or> c = CHR ''O''"
    and t: "[c] = get_current_turn (state game)"
    and z: "0 \<le> move_index request"
    and i: "nat (move_index request) < length (state game)"
    and d: "state game ! nat (move_index request) = CHR ''-''"
    and st: "state game' = take (nat (move_index request)) (state game) @ [c]
                     @ drop (Suc (nat (move_index request))) (state game)"
    and mv: "moves game' = moves game @ [\<lparr> m_game_id = g_id game,
                               m_player_id = player_id request,
                               m_move_index = move_index request \<rparr>]"
    and s: "make_move game_id request db = (to_gamestate game', db(game_id \<mapsto> game'))"
    by blast
  from s acc have "to_gamestate game' = Inr gs" by simp
  then have gs: "gs_state gs = state game'" "gs_moves gs = map m_move_index (moves game')"
    by (auto simp: to_gamestate_def split: if_splits)
  from st i have upd: "state game' = (state game)[nat (move_index request) := c]"
    by (simp add: upd_conv_take_nth_drop)
  from s have "snd (make_move game_id request db) game_id = Some game'" by simp
  with mv c t z i d upd gs show ?thesis by blast
qed

lemma make_move_occupancy:
  assumes db: "db game_id = Some game" and inv: "occupancy_inv game"
  shows "\<exists>game'. snd (make_move game_id' request db) game_id = Some game' \<and> occupancy_inv game'"
proof (cases "game_id' = game_id")
  case False
  with assms show ?thesis by (simp add: make_move_other_game)
next
  case True
  show ?thesis
  proof (cases "snd (make_move game_id request db) = db")
    case True
    with assms \<open>game_id' = game_id\<close> show ?thesis by simp
  next
    case False
    then have "\<not> (\<exists>e. make_move game_id request db = (Inl e, db) \<and>
        e \<noteq> ResponseValidationError)"
      by auto
    with make_move_same_game [of db game_id game request] db
    obtain c game' where c: "c = CHR ''X'' \<or> c = CHR ''O''"
      and i: "nat (move_index request) < length (state game)"
      and d: "state game ! nat (move_index request) = CHR ''-''"
      and st: "state game' = take (nat (move_index request)) (state game) @ [c]
                       @ drop (Suc (nat (move_index request))) (state game)"
      and mv: "moves game' = moves game @ [\<lparr> m_game_id = g_id game,
                                 m_player_id = player_id request,
                                 m_move_index = move_index request \<rparr>]"
      and s: "make_move game_id request db = (to_gamestate game', db(game_id \<mapsto> game'))"
      by blast
    from c have "c \<noteq> CHR ''-''" by auto
    from count_list_update_dash [OF i d this] inv i st mv
    have "occupancy_inv game'"
      by (simp add: occupancy_inv_def)
    with s \<open>game_id' = game_id\<close> show ?thesis by simp
  qed
qed

lemma make_moves_occupancy:
  "db game_id = Some game \<Longrightarrow> occupancy_inv game \<Longrightarrow>
   \<exists>game'. snd (make_moves requests db) game_id = Some game' \<and> occupancy_inv game'"
proof (induction requests arbitrary: db game)
  case Nil
  then show ?case by simp
next
  case (Cons a requests)
  obtain gid' r where a: "a = (gid', r)" by (cases a)
  have "\<exists>g1. snd (make_move gid' r db) game_id = Some g1 \<and> occupancy_inv g1"
    using Cons.prems by (rule make_move_occupancy)
  then obtain g1 where g1: "snd (make_move gid' r db) game_id = Some g1" "occupancy_inv g1"
    by blast
  have "\<exists>game'. snd (make_moves requests (snd (make_move gid' r db))) game_id = Some game' \<and>
          occupancy_inv game'"
    using g1 by (rule Cons.IH)
  then show ?case
    by (simp only: a snd_make_moves_Cons)
qed

text \<open>
  C4. A game that starts with the board \<^verbatim>\<open>---------\<close> and an empty move log
  has, after any sequence of move requests (to it or to other games, accepted or
  rejected), a move log whose length is 9 minus the number of \<^verbatim>\<open>-\<close> cells of
  its board. From every such session, every move request that is accepted (the
  response is a game state) stores the game with exactly one entry appended to
  the move log, the entry of this request, and with exactly one cell changed:
  the cell at the requested index, which was \<^verbatim>\<open>-\<close> and now holds the mark X
  or O of the player on turn.
\<close>

theorem move_log_matches_occupancy:
  assumes "db game_id = Some game" "state game = ''---------''" "moves game = []"
  shows "\<exists>game'. snd (make_moves requests db) game_id = Some game' \<and>
           int (length (moves game')) = 9 - int (count_list (state game') (CHR ''-'')) \<and>
           (\<forall>request gs.
              fst (make_move game_id request (snd (make_moves requests db))) = Inr gs \<longrightarrow>
              (\<exists>c game''.
                 snd (make_move game_id request (snd (make_moves requests db))) game_id
                   = Some game'' \<and>
                 moves game'' = moves game' @ [\<lparr> m_game_id = g_id game',
                                   m_player_id = player_id request,
                                   m_move_index = move_index request \<rparr>] \<and>
                 (c = CHR ''X'' \<or> c = CHR ''O'') \<and> [c] = get_current_turn (state game') \<and>
                 0 \<le> move_index request \<and> nat (move_index request) < length (state game') \<and>
                 state game' ! nat (move_index request) = CHR ''-'' \<and>
                 state game'' = (state game')[nat (move_index request) := c] \<and>
                 gs_state gs = state game'' \<and>
                 gs_moves gs = map m_move_index (moves game'')))"
proof -
  from assms(2,3) have "occupancy_inv game" by (simp add: occupancy_inv_def)
  with assms(1) have "\<exists>game'. snd (make_moves requests db) game_id = Some game' \<and>
      occupancy_inv game'"
    by (rule make_moves_occupancy)
  then obtain game' where g: "snd (make_moves requests db) game_id = Some game'"
    and inv: "occupancy_inv game'"
    by blast
  from inv have "int (length (moves game')) = 9 - int (count_list (state game') (CHR ''-''))"
    by (auto simp: occupancy_inv_def)
  moreover have "\<forall>request gs.
      fst (make_move game_id request (snd (make_moves requests db))) = Inr gs \<longrightarrow>
      (\<exists>c game''.
         snd (make_move game_id request (snd (make_moves requests db))) game_id
           = Some game'' \<and>
         moves game'' = moves game' @ [\<lparr> m_game_id = g_id game',
                           m_player_id = player_id request,
                           m_move_index = move_index request \<rparr>] \<and>
         (c = CHR ''X'' \<or> c = CHR ''O'') \<and> [c] = get_current_turn (state game') \<and>
         0 \<le> move_index request \<and> nat (move_index request) < length (state game') \<and>
         state game' ! nat (move_index request) = CHR ''-'' \<and>
         state game'' = (state game')[nat (move_index request) := c] \<and>
         gs_state gs = state game'' \<and>
         gs_moves gs = map m_move_index (moves game''))"
    using g by (intro allI impI) (rule make_move_accepted)
  ultimately show ?thesis using g by blast
qed

theorem move_log_matches_occupancy_witness:
  "(\<exists>game'. snd (make_moves [(1, \<lparr>player_id = 10, move_index = 0\<rparr>),
                             (1, \<lparr>player_id = 20, move_index = 0\<rparr>)]
                  [1 \<mapsto> new_game 1 10 20]) 1 = Some game' \<and>
           int (length (moves game')) = 9 - int (count_list (state game') (CHR ''-'')) \<and>
           (\<forall>request gs.
              fst (make_move 1 request
                     (snd (make_moves [(1, \<lparr>player_id = 10, move_index = 0\<rparr>),
                                       (1, \<lparr>player_id = 20, move_index = 0\<rparr>)]
                            [1 \<mapsto> new_game 1 10 20]))) = Inr gs \<longrightarrow>
              (\<exists>c game''.
                 snd (make_move 1 request
                        (snd (make_moves [(1, \<lparr>player_id = 10, move_index = 0\<rparr>),
                                          (1, \<lparr>player_id = 20, move_index = 0\<rparr>)]
                               [1 \<mapsto> new_game 1 10 20]))) 1
                   = Some game'' \<and>
                 moves game'' = moves game' @ [\<lparr> m_game_id = g_id game',
                                   m_player_id = player_id request,
                                   m_move_index = move_index request \<rparr>] \<and>
                 (c = CHR ''X'' \<or> c = CHR ''O'') \<and> [c] = get_current_turn (state game') \<and>
                 0 \<le> move_index request \<and> nat (move_index request) < length (state game') \<and>
                 state game' ! nat (move_index request) = CHR ''-'' \<and>
                 state game'' = (state game')[nat (move_index request) := c] \<and>
                 gs_state gs = state game'' \<and>
                 gs_moves gs = map m_move_index (moves game'')))) \<and>
   fst (make_move 1 \<lparr>player_id = 20, move_index = 4\<rparr>
          (snd (make_moves [(1, \<lparr>player_id = 10, move_index = 0\<rparr>),
                            (1, \<lparr>player_id = 20, move_index = 0\<rparr>)]
                 [1 \<mapsto> new_game 1 10 20])))
     = Inr \<lparr> gs_id = 1, gs_player_x = 10, gs_player_o = 20, gs_state = ''X---O----'',
              gs_winner = None, gs_moves = [0, 4] \<rparr>"
proof (rule conjI)
  show "fst (make_move 1 \<lparr>player_id = 20, move_index = 4\<rparr>
          (snd (make_moves [(1, \<lparr>player_id = 10, move_index = 0\<rparr>),
                            (1, \<lparr>player_id = 20, move_index = 0\<rparr>)]
                 [1 \<mapsto> new_game 1 10 20])))
     = Inr \<lparr> gs_id = 1, gs_player_x = 10, gs_player_o = 20, gs_state = ''X---O----'',
              gs_winner = None, gs_moves = [0, 4] \<rparr>"
    by (simp add: make_move_def new_game_def player_type_of_def get_current_turn_def
        str_at_def check_winner_def lines_def check_line_def to_gamestate_def Let_def)
qed (rule move_log_matches_occupancy
      [where db = "[1 \<mapsto> new_game 1 10 20]" and game_id = 1 and game = "new_game 1 10 20"
         and requests = "[(1, \<lparr>player_id = 10, move_index = 0\<rparr>),
                          (1, \<lparr>player_id = 20, move_index = 0\<rparr>)]"],
    simp_all add: new_game_def)

section \<open>Loading a game\<close>

text \<open>
  C8, as the code has it. \<^const>\<open>get_game_state\<close> validates nothing about the
  stored game: when the game exists and its stored winner is null, "X", "O" or
  "draw", the board, the winner and the move log are returned exactly as stored.
\<close>

theorem get_game_state_returns_stored:
  assumes "db game_id = Some game"
    and "winner game = None \<or> winner game = Some ''X'' \<or> winner game = Some ''O'' \<or>
         winner game = Some ''draw''"
  shows "get_game_state game_id db =
           Inr \<lparr> gs_id = g_id game, gs_player_x = player_x_id game,
                  gs_player_o = player_o_id game, gs_state = state game,
                  gs_winner = winner game, gs_moves = map m_move_index (moves game) \<rparr>"
  using assms by (auto simp: get_game_state_def to_gamestate_def)

theorem get_game_state_returns_stored_witness:
  "get_game_state 1 [1 \<mapsto> new_game 1 10 20] =
     Inr \<lparr> gs_id = 1, gs_player_x = 10, gs_player_o = 20, gs_state = ''---------'',
            gs_winner = None, gs_moves = [] \<rparr>"
  using get_game_state_returns_stored
    [where db = "[1 \<mapsto> new_game 1 10 20]" and game_id = 1 and game = "new_game 1 10 20"]
  by (simp add: new_game_def)

text \<open>
  A stored game whose board has two X and whose move log is empty is returned
  without any error.
\<close>

theorem load_without_validation_counterexample:
  "get_game_state 1 [1 \<mapsto> (new_game 1 10 20)\<lparr>state := ''XX-------''\<rparr>] =
     Inr \<lparr> gs_id = 1, gs_player_x = 10, gs_player_o = 20, gs_state = ''XX-------'',
            gs_winner = None, gs_moves = [] \<rparr> \<and>
   int (length (moves ((new_game 1 10 20)\<lparr>state := ''XX-------''\<rparr>))) \<noteq>
     9 - int (count_list (state ((new_game 1 10 20)\<lparr>state := ''XX-------''\<rparr>)) (CHR ''-''))"
  by (simp add: get_game_state_def to_gamestate_def new_game_def)

section \<open>A row win\<close>

lemma check_winner_eval:
  "check_winner ''X--------'' = Inr None"
  "check_winner ''X--O-----'' = Inr None"
  "check_winner ''XX-O-----'' = Inr None"
  "check_winner ''XX-OO----'' = Inr None"
  "check_winner ''XXXOO----'' = Inr (Some ''X'')"
  by (simp_all add: check_winner_def lines_def check_line_def str_at_def)

text \<open>
  C9. From a new game between two different players, the moves X at 0, O at 3,
  X at 1, O at 4, X at 2 are all accepted; the last response and the stored game
  have the board \<^verbatim>\<open>XXXOO----\<close> and the winner "X".
\<close>

theorem row_win_scenario:
  assumes "db game_id = Some (new_game game_id px po)" and "px \<noteq> po"
  shows "\<exists>r1 r2 r3 r4 r5 db' game'.
           make_moves [(game_id, \<lparr>player_id = px, move_index = 0\<rparr>),
                       (game_id, \<lparr>player_id = po, move_index = 3\<rparr>),
                       (game_id, \<lparr>player_id = px, move_index = 1\<rparr>),
                       (game_id, \<lparr>player_id = po, move_index = 4\<rparr>),
                       (game_id, \<lparr>player_id = px, move_index = 2\<rparr>)] db
             = ([Inr r1, Inr r2, Inr r3, Inr r4, Inr r5], db') \<and>
           gs_state r5 = ''XXXOO----'' \<and> gs_winner r5 = Some ''X'' \<and>
           gs_moves r5 = [0, 3, 1, 4, 2] \<and>
           db' game_id = Some game' \<and>
           state game' = ''XXXOO----'' \<and> winner game' = Some ''X''"
  using assms
  by (simp add: make_move_def new_game_def player_type_of_def get_current_turn_def
      str_at_def check_winner_eval to_gamestate_def Let_def)

theorem row_win_scenario_witness:
  "\<exists>r1 r2 r3 r4 r5 db' game'.
           make_moves [(1, \<lparr>player_id = 10, move_index = 0\<rparr>),
                       (1, \<lparr>player_id = 20, move_index = 3\<rparr>),
                       (1, \<lparr>player_id = 10, move_index = 1\<rparr>),
                       (1, \<lparr>player_id = 20, move_index = 4\<rparr>),
                       (1, \<lparr>player_id = 10, move_index = 2\<rparr>)] [1 \<mapsto> new_game 1 10 20]
             = ([Inr r1, Inr r2, Inr r3, Inr r4, Inr r5], db') \<and>
           gs_state r5 = ''XXXOO----'' \<and> gs_winner r5 = Some ''X'' \<and>
           gs_moves r5 = [0, 3, 1, 4, 2] \<and>
           db' 1 = Some game' \<and>
           state game' = ''XXXOO----'' \<and> winner game' = Some ''X''"
  by (rule row_win_scenario [where db = "[1 \<mapsto> new_game 1 10 20]" and game_id = 1
        and px = 10 and po = 20]) simp_all

end
